theory Spec2Isabelle
  imports Complex_Main
begin

section \<open>JavaScript numbers\<close>

text \<open>
  A JavaScript number is an IEEE double: a rational, an infinity or NaN. The comparisons
  and \<open>Math.ceil\<close> are exact on doubles and are modelled as such. Addition, subtraction,
  multiplication and division round, so the counter takes them as a parameter
  (\<open>fparith\<close>): what is proved for every \<open>fparith\<close> holds whatever the rounding does.
  \<open>exact\<close> is the arithmetic without rounding; it agrees with the doubles wherever every
  intermediate result is representable (integers below \<open>2^53\<close>, for instance). The sign
  of zero is not modelled.
\<close>

datatype jsnum = Fin rat | PInf | NInf | NaN

text \<open>\<open>x >= y\<close>: false as soon as one side is NaN.\<close>

fun js_ge :: "jsnum \<Rightarrow> jsnum \<Rightarrow> bool" where
  "js_ge NaN y = False"
| "js_ge x NaN = False"
| "js_ge PInf y = True"
| "js_ge x NInf = True"
| "js_ge NInf y = False"
| "js_ge (Fin a) PInf = False"
| "js_ge (Fin a) (Fin b) = (b \<le> a)"

definition js_le :: "jsnum \<Rightarrow> jsnum \<Rightarrow> bool" where
  "js_le x y = js_ge y x"

text \<open>\<open>Math.ceil\<close>: the infinities and NaN are returned as they are.\<close>

fun js_ceil :: "jsnum \<Rightarrow> jsnum" where
  "js_ceil (Fin q) = Fin (of_int \<lceil>q\<rceil>)"
| "js_ceil x = x"

text \<open>Truthiness of a number, as \<open>||\<close> and \<open>if\<close> read it: 0 and NaN are falsy.\<close>

fun truthy :: "jsnum \<Rightarrow> bool" where
  "truthy (Fin q) = (q \<noteq> 0)"
| "truthy NaN = False"
| "truthy x = True"

record fparith =
  fadd :: "jsnum \<Rightarrow> jsnum \<Rightarrow> jsnum"
  fsub :: "jsnum \<Rightarrow> jsnum \<Rightarrow> jsnum"
  fmul :: "jsnum \<Rightarrow> jsnum \<Rightarrow> jsnum"
  fdiv :: "jsnum \<Rightarrow> jsnum \<Rightarrow> jsnum"

fun neg :: "jsnum \<Rightarrow> jsnum" where
  "neg (Fin q) = Fin (- q)"
| "neg PInf = NInf"
| "neg NInf = PInf"
| "neg NaN = NaN"

fun add_exact :: "jsnum \<Rightarrow> jsnum \<Rightarrow> jsnum" where
  "add_exact NaN y = NaN"
| "add_exact x NaN = NaN"
| "add_exact (Fin a) (Fin b) = Fin (a + b)"
| "add_exact PInf NInf = NaN"
| "add_exact NInf PInf = NaN"
| "add_exact PInf y = PInf"
| "add_exact NInf y = NInf"
| "add_exact (Fin a) y = y"

definition sub_exact :: "jsnum \<Rightarrow> jsnum \<Rightarrow> jsnum" where
  "sub_exact x y = add_exact x (neg y)"

text \<open>The sign of a product or quotient with an infinity: \<open>inf_signed True\<close> is \<open>+Infinity\<close>.\<close>

definition inf_signed :: "bool \<Rightarrow> jsnum" where
  "inf_signed pos = (if pos then PInf else NInf)"

fun mul_exact :: "jsnum \<Rightarrow> jsnum \<Rightarrow> jsnum" where
  "mul_exact NaN y = NaN"
| "mul_exact x NaN = NaN"
| "mul_exact (Fin a) (Fin b) = Fin (a * b)"
| "mul_exact (Fin a) PInf = (if a = 0 then NaN else inf_signed (0 < a))"
| "mul_exact (Fin a) NInf = (if a = 0 then NaN else inf_signed (a < 0))"
| "mul_exact PInf (Fin b) = (if b = 0 then NaN else inf_signed (0 < b))"
| "mul_exact NInf (Fin b) = (if b = 0 then NaN else inf_signed (b < 0))"
| "mul_exact PInf PInf = PInf"
| "mul_exact PInf NInf = NInf"
| "mul_exact NInf PInf = NInf"
| "mul_exact NInf NInf = PInf"

fun div_exact :: "jsnum \<Rightarrow> jsnum \<Rightarrow> jsnum" where
  "div_exact NaN y = NaN"
| "div_exact x NaN = NaN"
| "div_exact (Fin a) (Fin b) =
     (if b = 0 then (if a = 0 then NaN else inf_signed (0 < a)) else Fin (a / b))"
| "div_exact (Fin a) y = Fin 0"
| "div_exact PInf (Fin b) = inf_signed (0 \<le> b)"
| "div_exact NInf (Fin b) = inf_signed (b < 0)"
| "div_exact x y = NaN"

definition exact :: fparith where
  "exact = \<lparr>fadd = add_exact, fsub = sub_exact, fmul = mul_exact, fdiv = div_exact\<rparr>"

section \<open>ModernCounter\<close>

text \<open>
  The numeric options, as the formatter receives them, and the whole options object.
  A hook is \<open>null\<close> or a function; a call of a hook is recorded in \<open>calls\<close> with its
  argument, so a hook is any observer of the counter that does not call back into it.
\<close>

record config =
  opt_from :: jsnum
  opt_to :: jsnum
  speed :: jsnum
  refreshInterval :: jsnum
  decimals :: jsnum

datatype callback = Null | Function

record options = config +
  formatter :: "jsnum \<Rightarrow> config \<Rightarrow> string"
  onUpdate :: callback
  onComplete :: callback
  scrollTrigger :: bool

text \<open>
  \<open>DEFAULTS\<close>: \<open>Number.prototype.toFixed\<close> is the language's, taken as a parameter.
\<close>

definition DEFAULTS :: "(jsnum \<Rightarrow> jsnum \<Rightarrow> string) \<Rightarrow> options" where
  "DEFAULTS toFixed =
     \<lparr>opt_from = Fin 0, opt_to = Fin 0, speed = Fin 1000, refreshInterval = Fin 100,
      decimals = Fin 0, formatter = (\<lambda>v c. toFixed v (decimals c)),
      onUpdate = Null, onComplete = Null, scrollTrigger = False\<rparr>"

text \<open>
  \<open>this.interval\<close>: never assigned by the constructor, \<open>null\<close> after \<open>stop\<close>, the
  identifier \<open>setInterval\<close> returned otherwise. Identifiers are positive integers.
\<close>

datatype handle = Undefined | HNull | Id nat

fun handle_truthy :: "handle \<Rightarrow> bool" where
  "handle_truthy (Id n) = (n \<noteq> 0)"
| "handle_truthy h = False"

datatype event = UpdateCall jsnum | CompleteCall jsnum

text \<open>
  The instance (\<open>options\<close> to \<open>interval\<close>), the text of its element, and what it owns of
  the window: \<open>timers\<close> holds the identifiers of the active interval timers whose callback
  is this instance's \<open>update\<close>, \<open>issued\<close> counts the identifiers the window has handed
  out (the next one is \<open>Suc issued\<close>), \<open>gsap\<close> tells whether the global \<open>gsap\<close> is
  defined and \<open>tweens\<close> counts the tweens of this instance that gsap runs.
  \<open>loopCount\<close> counts from 0 in steps of 1, where doubles are exact, and is a \<open>nat\<close>.
\<close>

record counter =
  options :: options
  val :: jsnum
  loops :: jsnum
  loopCount :: nat
  increment :: jsnum
  interval :: handle
  textContent :: string
  timers :: "nat set"
  issued :: nat
  gsap :: bool
  tweens :: nat
  calls :: "event list"

definition init :: "fparith \<Rightarrow> counter \<Rightarrow> counter" where
  "init fp s =
     (let s1 = s\<lparr>val := opt_from (options s)\<rparr>;
          s2 = s1\<lparr>loops := js_ceil (fdiv fp (speed (options s1)) (refreshInterval (options s1)))\<rparr>;
          s3 = s2\<lparr>loopCount := 0\<rparr>
      in s3\<lparr>increment :=
              fdiv fp (fsub fp (opt_to (options s3)) (opt_from (options s3))) (loops s3)\<rparr>)"

definition render :: "counter \<Rightarrow> counter" where
  "render s =
     s\<lparr>textContent := formatter (options s) (val s) (config.truncate (options s))\<rparr>"

definition clearInterval :: "handle \<Rightarrow> nat set \<Rightarrow> nat set" where
  "clearInterval h ts = (case h of Id n \<Rightarrow> ts - {n} | _ \<Rightarrow> ts)"

text \<open>
  \<open>if (typeof this.options.onUpdate === 'function') this.options.onUpdate.call(this.element,
  this.value)\<close>, and the same for \<open>onComplete\<close>.
\<close>

definition call_onUpdate :: "counter \<Rightarrow> counter" where
  "call_onUpdate s =
     (if onUpdate (options s) = Function
      then s\<lparr>calls := calls s @ [UpdateCall (val s)]\<rparr> else s)"

definition call_onComplete :: "counter \<Rightarrow> counter" where
  "call_onComplete s =
     (if onComplete (options s) = Function
      then s\<lparr>calls := calls s @ [CompleteCall (val s)]\<rparr> else s)"

definition update :: "fparith \<Rightarrow> counter \<Rightarrow> counter" where
  "update fp s =
     (let s1 = s\<lparr>val := fadd fp (val s) (increment s)\<rparr>;
          s2 = s1\<lparr>loopCount := Suc (loopCount s1)\<rparr>;
          s3 = call_onUpdate (render s2)
      in if js_ge (Fin (of_nat (loopCount s3))) (loops s3)
         then (let s4 = s3\<lparr>timers := clearInterval (interval s3) (timers s3)\<rparr>;
                   s5 = s4\<lparr>val := opt_to (options s4)\<rparr>
               in call_onComplete (render s5))
         else s3)"

definition stop :: "counter \<Rightarrow> counter" where
  "stop s =
     (let s1 = (if handle_truthy (interval s)
                then s\<lparr>timers := clearInterval (interval s) (timers s), interval := HNull\<rparr>
                else s)
      in if gsap s1 then s1\<lparr>tweens := 0\<rparr> else s1)"

text \<open>
  \<open>animateWithGSAP\<close> returns whether gsap took the animation over. The tween itself
  runs inside gsap and is not modelled beyond its registration.
\<close>

definition animateWithGSAP :: "counter \<Rightarrow> counter \<times> bool" where
  "animateWithGSAP s =
     (if gsap s
      then (let s1 = stop s;
                s2 = s1\<lparr>val := opt_from (options s1)\<rparr>
            in (s2\<lparr>tweens := Suc (tweens s2)\<rparr>, True))
      else (s, False))"

definition start :: "counter \<Rightarrow> counter" where
  "start s =
     (let s1 = stop s;
          s2 = render s1;
          (s3, used) = animateWithGSAP s2
      in if \<not> used
         then s3\<lparr>timers := insert (Suc (issued s3)) (timers s3),
                 interval := Id (Suc (issued s3)),
                 issued := Suc (issued s3)\<rparr>
         else s3)"

definition restart :: "fparith \<Rightarrow> counter \<Rightarrow> counter" where
  "restart fp s = start (init fp (stop s))"

definition toggle :: "counter \<Rightarrow> counter" where
  "toggle s = (if handle_truthy (interval s) then stop s else start s)"

text \<open>
  The constructor up to \<open>this.init()\<close>: \<open>opts\<close> is the merged options object, \<open>txt\<close> the
  text the element shows, \<open>n\<close> the number of timer identifiers the window has issued and
  \<open>g\<close> whether gsap is loaded. The four fields \<open>init\<close> assigns are overwritten by it.
\<close>

definition construct :: "fparith \<Rightarrow> options \<Rightarrow> string \<Rightarrow> nat \<Rightarrow> bool \<Rightarrow> counter" where
  "construct fp opts txt n g =
     init fp \<lparr>options = opts, val = NaN, loops = NaN, loopCount = 0, increment = NaN,
              interval = Undefined, textContent = txt, timers = {}, issued = n,
              gsap = g, tweens = 0, calls = []\<rparr>"

text \<open>
  One period of \<open>refreshInterval\<close>: the active interval timer, if there is one, calls
  \<open>update\<close>. \<open>ticks fp k\<close> is \<open>k\<close> periods with no other call in between.
\<close>

definition tick :: "fparith \<Rightarrow> counter \<Rightarrow> counter" where
  "tick fp s = (if timers s = {} then s else update fp s)"

fun ticks :: "fparith \<Rightarrow> nat \<Rightarrow> counter \<Rightarrow> counter" where
  "ticks fp 0 s = s"
| "ticks fp (Suc k) s = ticks fp k (tick fp s)"

text \<open>
  The calls a client and the timer can make on an instance, and a history of them.
\<close>

datatype action = Start | Stop | Restart | Toggle | Tick

fun perform :: "fparith \<Rightarrow> action \<Rightarrow> counter \<Rightarrow> counter" where
  "perform fp Start s = start s"
| "perform fp Stop s = stop s"
| "perform fp Restart s = restart fp s"
| "perform fp Toggle s = toggle s"
| "perform fp Tick s = tick fp s"

fun run :: "fparith \<Rightarrow> action list \<Rightarrow> counter \<Rightarrow> counter" where
  "run fp [] s = s"
| "run fp (a # as) s = run fp as (perform fp a s)"

text \<open>The hook calls of a log, by kind.\<close>

fun is_update :: "event \<Rightarrow> bool" where
  "is_update (UpdateCall v) = True"
| "is_update (CompleteCall v) = False"

definition update_calls :: "event list \<Rightarrow> nat" where
  "update_calls es = length (filter is_update es)"

definition complete_calls :: "event list \<Rightarrow> nat" where
  "complete_calls es = length (filter (\<lambda>e. \<not> is_update e) es)"

section \<open>The scroll listener\<close>

text \<open>
  \<open>setupScrollListener\<close> is the same code in both classes; \<open>st\<close> is the \<open>start\<close> of the
  engine it belongs to. \<open>listening\<close> tells whether \<open>checkScroll\<close> is registered for the
  window's scroll events, \<open>start_calls\<close> counts the calls of \<open>start\<close> the listener made,
  and \<open>external_trigger\<close> whether the instance was handed to ScrollTrigger instead. What
  the layout gives at the moment of a check is the input \<open>viewport\<close>.
\<close>

record viewport =
  rect_top :: jsnum
  rect_bottom :: jsnum
  innerHeight :: jsnum
  clientHeight :: jsnum

record 'e scroller =
  engine :: 'e
  listening :: bool
  start_calls :: nat
  external_trigger :: bool

definition windowHeight :: "viewport \<Rightarrow> jsnum" where
  "windowHeight vp = (if truthy (innerHeight vp) then innerHeight vp else clientHeight vp)"

definition in_view :: "fparith \<Rightarrow> viewport \<Rightarrow> bool" where
  "in_view fp vp =
     (js_le (rect_top vp) (fmul fp (windowHeight vp) (Fin (8 / 10)))
      \<and> js_ge (rect_bottom vp) (Fin 0))"

definition checkScroll ::
  "fparith \<Rightarrow> ('e \<Rightarrow> 'e) \<Rightarrow> viewport \<Rightarrow> 'e scroller \<Rightarrow> 'e scroller" where
  "checkScroll fp st vp p =
     (if in_view fp vp
      then p\<lparr>engine := st (engine p), start_calls := Suc (start_calls p), listening := False\<rparr>
      else p)"

definition setupScrollListener ::
  "fparith \<Rightarrow> ('e \<Rightarrow> 'e) \<Rightarrow> viewport \<Rightarrow> 'e \<Rightarrow> 'e scroller" where
  "setupScrollListener fp st vp e =
     checkScroll fp st vp
       \<lparr>engine = e, listening = True, start_calls = 0, external_trigger = False\<rparr>"

text \<open>A scroll event of the window reaches \<open>checkScroll\<close> while it is registered.\<close>

definition scroll_event ::
  "fparith \<Rightarrow> ('e \<Rightarrow> 'e) \<Rightarrow> viewport \<Rightarrow> 'e scroller \<Rightarrow> 'e scroller" where
  "scroll_event fp st vp p = (if listening p then checkScroll fp st vp p else p)"

fun scroll_events ::
  "fparith \<Rightarrow> ('e \<Rightarrow> 'e) \<Rightarrow> viewport list \<Rightarrow> 'e scroller \<Rightarrow> 'e scroller" where
  "scroll_events fp st [] p = p"
| "scroll_events fp st (vp # vps) p = scroll_events fp st vps (scroll_event fp st vp p)"

text \<open>
  The whole constructor of ModernCounter: \<open>g\<close> tells whether gsap is loaded and \<open>plugin\<close>
  whether \<open>gsap.ScrollTrigger\<close> is.
\<close>

definition setupScrollTrigger ::
  "fparith \<Rightarrow> bool \<Rightarrow> viewport \<Rightarrow> counter \<Rightarrow> counter scroller" where
  "setupScrollTrigger fp plugin vp c =
     (if plugin
      then \<lparr>engine = c, listening = False, start_calls = 0, external_trigger = True\<rparr>
      else setupScrollListener fp start vp c)"

definition ModernCounter ::
  "fparith \<Rightarrow> options \<Rightarrow> string \<Rightarrow> nat \<Rightarrow> bool \<Rightarrow> bool \<Rightarrow> viewport \<Rightarrow> counter scroller" where
  "ModernCounter fp opts txt n g plugin vp =
     (let c = construct fp opts txt n g
      in if scrollTrigger opts \<and> g
         then setupScrollTrigger fp plugin vp c
         else \<lparr>engine = c, listening = False, start_calls = 0, external_trigger = False\<rparr>)"

section \<open>VerticalCounter\<close>

record voptions =
  v_to :: "string option"
  duration :: jsnum
  v_scrollTrigger :: bool
  v_onComplete :: callback

definition VDEFAULTS :: voptions where
  "VDEFAULTS =
     \<lparr>v_to = None, duration = Fin 2, v_scrollTrigger = False, v_onComplete = Null\<rparr>"

text \<open>\<open>!this.options.to\<close>: a missing value and the empty string are falsy.\<close>

fun missing :: "string option \<Rightarrow> bool" where
  "missing None = True"
| "missing (Some s) = (s = [])"

text \<open>\<open>parseInt(digitValue, 10) || 0\<close> on a string of one character.\<close>

definition parse_digit :: "char \<Rightarrow> nat" where
  "parse_digit c =
     (let code = (of_char c :: nat)
      in if 48 \<le> code \<and> code \<le> 57 then code - 48 else 0)"

text \<open>
  A column: the digit it rolls to, the \<open>transition\<close> and the vertical offset (in em) of
  its strip, and the number of \<open>transitionend\<close> handlers registered on the strip.
  \<open>TransformEase d l\<close> is \<open>transform\<close> over \<open>d\<close> seconds, eased, after a delay of \<open>l\<close>
  seconds.
\<close>

datatype transition = Unset | TransitionNone | TransformEase jsnum jsnum

record digit =
  digit_value :: nat
  transition :: transition
  translateY :: int
  handlers :: nat

text \<open>
  A pending \<open>setTimeout\<close>: its delay in milliseconds and what it does, either the call of
  \<open>start\<close> or the move of the strip of one column (by its index) to a digit.
\<close>

datatype timeout = CallStart nat | SetTransform nat nat nat

record vcounter =
  voptions :: voptions
  digitElements :: "digit list"
  timeouts :: "timeout list"

datatype js_error = TypeError

text \<open>\<open>this.options.to.toString()\<close> throws a TypeError when \<open>to\<close> is undefined.\<close>

definition buildCounter :: "voptions \<Rightarrow> js_error + vcounter" where
  "buildCounter opts =
     (case v_to opts of
        None \<Rightarrow> Inl TypeError
      | Some digits \<Rightarrow>
          Inr \<lparr>voptions = opts,
               digitElements =
                 map (\<lambda>digitValue. \<lparr>digit_value = parse_digit digitValue, transition = Unset,
                                       translateY = 0, handlers = 0\<rparr>)
                     digits,
               timeouts = []\<rparr>)"

definition start_digit :: "fparith \<Rightarrow> jsnum \<Rightarrow> nat \<times> digit \<Rightarrow> digit" where
  "start_digit fp d p =
     (case p of (index, dg) \<Rightarrow>
        dg\<lparr>transition := TransformEase d (fmul fp (Fin (of_nat index)) (Fin (1 / 10))),
           translateY := 0,
           handlers := Suc (handlers dg)\<rparr>)"

definition vstart :: "fparith \<Rightarrow> vcounter \<Rightarrow> vcounter" where
  "vstart fp s =
     s\<lparr>digitElements :=
         map (start_digit fp (duration (voptions s))) (List.enumerate 0 (digitElements s)),
       timeouts :=
         timeouts s @
         map (\<lambda>p. SetTransform 50 (fst p) (digit_value (snd p)))
             (List.enumerate 0 (digitElements s))\<rparr>"

text \<open>
  An instance: after the early return of the constructor \<open>digitElements\<close> is undefined
  (\<open>Unbuilt\<close>), and \<open>start\<close> on it throws a TypeError.
\<close>

datatype vinstance = Unbuilt voptions | Built "vcounter scroller"

fun vc_start :: "fparith \<Rightarrow> vinstance \<Rightarrow> js_error + vinstance" where
  "vc_start fp (Unbuilt opts) = Inl TypeError"
| "vc_start fp (Built p) = Inr (Built (p\<lparr>engine := vstart fp (engine p)\<rparr>))"

record vresult =
  console :: "string list"
  inst :: vinstance

text \<open>
  The constructor: \<open>plugin\<close> tells whether the global \<open>ScrollTrigger\<close> is defined. The
  result is the error thrown, or what was written to the console and the instance.
\<close>

definition VerticalCounter ::
  "fparith \<Rightarrow> voptions \<Rightarrow> bool \<Rightarrow> viewport \<Rightarrow> js_error + vresult" where
  "VerticalCounter fp opts plugin vp =
     (if missing (v_to opts)
      then Inr \<lparr>console = [''VerticalCounter requires a '' @ [CHR 0x22] @ ''to'' @ [CHR 0x22] @ '' value''],
                inst = Unbuilt opts\<rparr>
      else (case buildCounter opts of
              Inl err \<Rightarrow> Inl err
            | Inr e \<Rightarrow>
                Inr \<lparr>console = [],
                     inst = Built
                       (if v_scrollTrigger opts
                        then (if plugin
                              then \<lparr>engine = e, listening = False, start_calls = 0,
                                     external_trigger = True\<rparr>
                              else setupScrollListener fp (vstart fp) vp e)
                        else \<lparr>engine = e\<lparr>timeouts := [CallStart 100]\<rparr>, listening = False,
                               start_calls = 0, external_trigger = False\<rparr>)\<rparr>))"

text \<open>What an instance shows: its columns, and the delay of each column's transition.\<close>

fun columns :: "vinstance \<Rightarrow> digit list" where
  "columns (Unbuilt opts) = []"
| "columns (Built p) = digitElements (engine p)"

fun delay :: "digit \<Rightarrow> jsnum option" where
  "delay dg = (case transition dg of TransformEase d l \<Rightarrow> Some l | _ \<Rightarrow> None)"

text \<open>
  \<open>last_tick s\<close>: the \<open>update\<close> that runs in \<open>s\<close> takes the branch
  \<open>loopCount >= loops\<close>.
\<close>

definition last_tick :: "counter \<Rightarrow> bool" where
  "last_tick s = js_ge (Fin (of_nat (Suc (loopCount s)))) (loops s)"

text \<open>\<open>totalTicks\<close>: what \<open>init\<close> stores in \<open>loops\<close>, as a function of the options.\<close>

definition totalTicks :: "fparith \<Rightarrow> options \<Rightarrow> jsnum" where
  "totalTicks fp opts = js_ceil (fdiv fp (speed opts) (refreshInterval opts))"

text \<open>
  The timers an instance can still cancel: the one whose identifier \<open>this.interval\<close>
  holds. \<open>timer_inv\<close>: every active timer of the instance is that one, and its identifier
  is one the window has issued.
\<close>

fun held :: "handle \<Rightarrow> nat set" where
  "held (Id n) = (if n = 0 then {} else {n})"
| "held h = {}"

definition timer_inv :: "counter \<Rightarrow> bool" where
  "timer_inv s = (timers s \<subseteq> held (interval s) \<and> timers s \<subseteq> {..issued s})"

section \<open>The scenario of the specification\<close>

text \<open>
  From 0 to 1000 in 2000 ms, refreshed every 100 ms, both hooks set. The formatter is one a
  client can pass: the value rounded to the nearest integer, in decimal.
\<close>

fun decimal :: "nat \<Rightarrow> string" where
  "decimal n =
     (if n < 10 then [char_of (48 + n)] else decimal (n div 10) @ [char_of (48 + n mod 10)])"

definition rounded :: "jsnum \<Rightarrow> config \<Rightarrow> string" where
  "rounded v c =
     (case v of
        Fin q \<Rightarrow> (if q < 0 then ''-'' @ decimal (nat \<lfloor>- q + 1 / 2\<rfloor>)
                  else decimal (nat \<lfloor>q + 1 / 2\<rfloor>))
      | PInf \<Rightarrow> ''Infinity''
      | NInf \<Rightarrow> ''-Infinity''
      | NaN \<Rightarrow> ''NaN'')"

definition scenario :: options where
  "scenario =
     \<lparr>opt_from = Fin 0, opt_to = Fin 1000, speed = Fin 2000, refreshInterval = Fin 100,
      decimals = Fin 0, formatter = rounded, onUpdate = Function, onComplete = Function,
      scrollTrigger = False\<rparr>"

declare decimal.simps [simp del]

text \<open>
  A layout for the scroll scenario: a window 1000 px high, with the top of the element at
  \<open>pc\<close> per cent of that height and the element 50 px high.
\<close>

definition placed :: "rat \<Rightarrow> viewport" where
  "placed pc =
     \<lparr>rect_top = Fin (pc * 10), rect_bottom = Fin (pc * 10 + 50), innerHeight = Fin 1000,
      clientHeight = Fin 1000\<rparr>"



section \<open>What each step leaves alone\<close>

lemma render_frame [simp]:
  "options (render s) = options s"
  "val (render s) = val s"
  "loops (render s) = loops s"
  "loopCount (render s) = loopCount s"
  "increment (render s) = increment s"
  "interval (render s) = interval s"
  "timers (render s) = timers s"
  "issued (render s) = issued s"
  "gsap (render s) = gsap s"
  "tweens (render s) = tweens s"
  "calls (render s) = calls s"
  by (simp_all add: render_def)

lemma call_onUpdate_frame [simp]:
  "options (call_onUpdate s) = options s"
  "val (call_onUpdate s) = val s"
  "loops (call_onUpdate s) = loops s"
  "loopCount (call_onUpdate s) = loopCount s"
  "increment (call_onUpdate s) = increment s"
  "interval (call_onUpdate s) = interval s"
  "textContent (call_onUpdate s) = textContent s"
  "timers (call_onUpdate s) = timers s"
  "issued (call_onUpdate s) = issued s"
  "gsap (call_onUpdate s) = gsap s"
  "tweens (call_onUpdate s) = tweens s"
  by (simp_all add: call_onUpdate_def)

lemma call_onComplete_frame [simp]:
  "options (call_onComplete s) = options s"
  "val (call_onComplete s) = val s"
  "loops (call_onComplete s) = loops s"
  "loopCount (call_onComplete s) = loopCount s"
  "increment (call_onComplete s) = increment s"
  "interval (call_onComplete s) = interval s"
  "textContent (call_onComplete s) = textContent s"
  "timers (call_onComplete s) = timers s"
  "issued (call_onComplete s) = issued s"
  "gsap (call_onComplete s) = gsap s"
  "tweens (call_onComplete s) = tweens s"
  by (simp_all add: call_onComplete_def)

lemma update_frame [simp]:
  "options (update fp s) = options s"
  "loops (update fp s) = loops s"
  "increment (update fp s) = increment s"
  "interval (update fp s) = interval s"
  "issued (update fp s) = issued s"
  "gsap (update fp s) = gsap s"
  "tweens (update fp s) = tweens s"
  "loopCount (update fp s) = Suc (loopCount s)"
  by (simp_all add: update_def Let_def)

lemma update_val:
  "val (update fp s) =
     (if last_tick s then opt_to (options s) else fadd fp (val s) (increment s))"
  by (simp add: update_def Let_def last_tick_def)

lemma update_timers:
  "timers (update fp s) =
     (if last_tick s then clearInterval (interval s) (timers s) else timers s)"
  by (simp add: update_def Let_def last_tick_def)

lemma update_calls_log:
  "calls (update fp s) =
     calls s
     @ (if onUpdate (options s) = Function
        then [UpdateCall (fadd fp (val s) (increment s))] else [])
     @ (if last_tick s \<and> onComplete (options s) = Function
        then [CompleteCall (opt_to (options s))] else [])"
  by (simp add: update_def Let_def last_tick_def call_onUpdate_def call_onComplete_def)

lemma update_textContent:
  "textContent (update fp s) =
     formatter (options s)
       (if last_tick s then opt_to (options s) else fadd fp (val s) (increment s))
       (config.truncate (options s))"
  by (simp add: update_def Let_def last_tick_def render_def)

lemma stop_frame [simp]:
  "options (stop s) = options s"
  "val (stop s) = val s"
  "loops (stop s) = loops s"
  "loopCount (stop s) = loopCount s"
  "increment (stop s) = increment s"
  "textContent (stop s) = textContent s"
  "issued (stop s) = issued s"
  "gsap (stop s) = gsap s"
  "calls (stop s) = calls s"
  by (simp_all add: stop_def Let_def)

lemma stop_timers:
  "timers (stop s) =
     (if handle_truthy (interval s) then clearInterval (interval s) (timers s) else timers s)"
  by (simp add: stop_def Let_def)

lemma stop_interval:
  "interval (stop s) = (if handle_truthy (interval s) then HNull else interval s)"
  by (simp add: stop_def Let_def)

lemma stop_tweens:
  "tweens (stop s) = (if gsap s then 0 else tweens s)"
  by (simp add: stop_def Let_def)

lemma start_frame [simp]:
  "options (start s) = options s"
  "loops (start s) = loops s"
  "loopCount (start s) = loopCount s"
  "increment (start s) = increment s"
  "gsap (start s) = gsap s"
  "calls (start s) = calls s"
  by (simp_all add: start_def animateWithGSAP_def Let_def)

lemma start_builtin:
  assumes "\<not> gsap s"
  shows "timers (start s) = insert (Suc (issued s)) (timers (stop s))"
    and "interval (start s) = Id (Suc (issued s))"
    and "issued (start s) = Suc (issued s)"
    and "val (start s) = val s"
    and "tweens (start s) = tweens s"
    and "textContent (start s) = formatter (options s) (val s) (config.truncate (options s))"
  using assms by (simp_all add: start_def animateWithGSAP_def Let_def stop_tweens render_def)

lemma start_gsap:
  assumes "gsap s"
  shows "timers (start s) = timers (stop s)"
    and "interval (start s) = interval (stop s)"
    and "issued (start s) = issued s"
    and "val (start s) = opt_from (options s)"
    and "tweens (start s) = 1"
  using assms
  by (simp_all add: start_def animateWithGSAP_def Let_def stop_tweens stop_timers stop_interval)

lemma init_frame [simp]:
  "options (init fp s) = options s"
  "interval (init fp s) = interval s"
  "textContent (init fp s) = textContent s"
  "timers (init fp s) = timers s"
  "issued (init fp s) = issued s"
  "gsap (init fp s) = gsap s"
  "tweens (init fp s) = tweens s"
  "calls (init fp s) = calls s"
  by (simp_all add: init_def Let_def)

lemma init_fields:
  "val (init fp s) = opt_from (options s)"
  "loopCount (init fp s) = 0"
  "loops (init fp s) = js_ceil (fdiv fp (speed (options s)) (refreshInterval (options s)))"
  "increment (init fp s) =
     fdiv fp (fsub fp (opt_to (options s)) (opt_from (options s)))
       (js_ceil (fdiv fp (speed (options s)) (refreshInterval (options s))))"
  by (simp_all add: init_def Let_def)

lemma construct_fields:
  "options (construct fp opts txt n g) = opts"
  "interval (construct fp opts txt n g) = Undefined"
  "textContent (construct fp opts txt n g) = txt"
  "timers (construct fp opts txt n g) = {}"
  "issued (construct fp opts txt n g) = n"
  "gsap (construct fp opts txt n g) = g"
  "tweens (construct fp opts txt n g) = 0"
  "calls (construct fp opts txt n g) = []"
  "val (construct fp opts txt n g) = opt_from opts"
  "loopCount (construct fp opts txt n g) = 0"
  "loops (construct fp opts txt n g) = js_ceil (fdiv fp (speed opts) (refreshInterval opts))"
  "increment (construct fp opts txt n g) =
     fdiv fp (fsub fp (opt_to opts) (opt_from opts))
       (js_ceil (fdiv fp (speed opts) (refreshInterval opts)))"
  by (simp_all add: construct_def init_fields)

lemma tick_frame [simp]:
  "options (tick fp s) = options s"
  "loops (tick fp s) = loops s"
  "increment (tick fp s) = increment s"
  "interval (tick fp s) = interval s"
  "issued (tick fp s) = issued s"
  "gsap (tick fp s) = gsap s"
  "tweens (tick fp s) = tweens s"
  by (simp_all add: tick_def)

lemma ticks_frame [simp]:
  "options (ticks fp k s) = options s"
  "loops (ticks fp k s) = loops s"
  "increment (ticks fp k s) = increment s"
  "interval (ticks fp k s) = interval s"
  "issued (ticks fp k s) = issued s"
  "gsap (ticks fp k s) = gsap s"
  "tweens (ticks fp k s) = tweens s"
  by (induction k arbitrary: s; simp)+

lemma ticks_idle: "timers s = {} \<Longrightarrow> ticks fp k s = s"
  by (induction k arbitrary: s) (simp_all add: tick_def)


section \<open>One timer\<close>

lemma clear_held: "ts \<subseteq> held h \<Longrightarrow> clearInterval h ts = {}"
  by (cases h) (auto simp: clearInterval_def split: if_splits)

lemma held_truthy: "\<not> handle_truthy h \<Longrightarrow> held h = {}"
  by (cases h) auto

lemma stop_clears: "timers s \<subseteq> held (interval s) \<Longrightarrow> timers (stop s) = {}"
  using held_truthy [of "interval s"] by (auto simp: stop_timers clear_held)

lemma timer_inv_stop: "timer_inv s \<Longrightarrow> timer_inv (stop s)"
  by (simp add: timer_inv_def stop_clears)

lemma timer_inv_init: "timer_inv s \<Longrightarrow> timer_inv (init fp s)"
  by (simp add: timer_inv_def)

lemma timer_inv_start: "timer_inv s \<Longrightarrow> timer_inv (start s)"
  by (cases "gsap s") (simp_all add: timer_inv_def start_builtin start_gsap stop_clears)

lemma timer_inv_update: "timer_inv s \<Longrightarrow> timer_inv (update fp s)"
  by (simp add: timer_inv_def update_timers clear_held)

lemma timer_inv_tick: "timer_inv s \<Longrightarrow> timer_inv (tick fp s)"
  by (simp add: tick_def timer_inv_update)

lemma timer_inv_perform: "timer_inv s \<Longrightarrow> timer_inv (perform fp a s)"
  by (cases a)
     (simp_all add: restart_def toggle_def timer_inv_start timer_inv_stop timer_inv_init
        timer_inv_tick)

lemma timer_inv_run: "timer_inv s \<Longrightarrow> timer_inv (run fp as s)"
  by (induction as arbitrary: s) (simp_all add: timer_inv_perform)

lemma timer_inv_construct: "timer_inv (construct fp opts txt n g)"
  by (simp add: timer_inv_def construct_fields)

lemma timer_inv_card: "timer_inv s \<Longrightarrow> finite (timers s) \<and> card (timers s) \<le> 1"
proof -
  assume "timer_inv s"
  then have sub: "timers s \<subseteq> held (interval s)"
    by (simp add: timer_inv_def)
  have fin: "finite (held (interval s))" and le: "card (held (interval s)) \<le> 1"
    by (cases "interval s"; simp)+
  from sub fin have "finite (timers s)"
    by (rule finite_subset)
  moreover from sub fin have "card (timers s) \<le> card (held (interval s))"
    by (simp add: card_mono)
  ultimately show ?thesis
    using le by simp
qed

text \<open>What a history never changes.\<close>

lemma perform_frame [simp]:
  "options (perform fp a s) = options s"
  "gsap (perform fp a s) = gsap s"
  by (cases a; simp add: restart_def toggle_def)+

lemma run_frame [simp]:
  "options (run fp as s) = options s"
  "gsap (run fp as s) = gsap s"
  by (induction as arbitrary: s; simp)+

text \<open>\<open>loops\<close> is a function of the options once \<open>init\<close> has run.\<close>

lemma perform_loops:
  "loops s = totalTicks fp (options s) \<Longrightarrow> loops (perform fp a s) = totalTicks fp (options s)"
  by (cases a) (simp_all add: restart_def toggle_def init_fields totalTicks_def)

lemma run_loops:
  "loops s = totalTicks fp (options s) \<Longrightarrow> loops (run fp as s) = totalTicks fp (options s)"
proof (induction as arbitrary: s)
  case Nil
  then show ?case by simp
next
  case (Cons a as)
  have "loops (perform fp a s) = totalTicks fp (options (perform fp a s))"
    using Cons.prems by (simp add: perform_loops)
  from Cons.IH [OF this] show ?case by simp
qed

section \<open>A run of ticks\<close>

lemma ticks_completed_val:
  "timers s \<subseteq> held (interval s) \<Longrightarrow> timers s \<noteq> {} \<Longrightarrow> timers (ticks fp k s) = {} \<Longrightarrow>
   val (ticks fp k s) = opt_to (options s)"
proof (induction k arbitrary: s)
  case 0
  then show ?case by simp
next
  case (Suc k)
  show ?case
  proof (cases "last_tick s")
    case True
    then have "timers (update fp s) = {}"
      using Suc.prems(1) by (simp add: update_timers clear_held)
    then have "ticks fp k (update fp s) = update fp s"
      by (rule ticks_idle)
    then show ?thesis
      using Suc.prems(2) True by (simp add: tick_def update_val)
  next
    case False
    then have "val (ticks fp k (update fp s)) = opt_to (options (update fp s))"
      using Suc.prems by (intro Suc.IH) (simp_all add: update_timers tick_def)
    then show ?thesis
      using Suc.prems(2) by (simp add: tick_def)
  qed
qed

lemma last_tick_iff:
  "loops s = Fin q \<Longrightarrow> last_tick s \<longleftrightarrow> nat \<lceil>q\<rceil> \<le> Suc (loopCount s)"
proof -
  assume "loops s = Fin q"
  then have "last_tick s \<longleftrightarrow> q \<le> of_int (int (Suc (loopCount s)))"
    by (simp add: last_tick_def)
  also have "\<dots> \<longleftrightarrow> \<lceil>q\<rceil> \<le> int (Suc (loopCount s))"
    by (simp only: ceiling_le_iff)
  also have "\<dots> \<longleftrightarrow> nat \<lceil>q\<rceil> \<le> Suc (loopCount s)"
    by linarith
  finally show ?thesis .
qed

lemma ticks_completes:
  "timers s \<subseteq> held (interval s) \<Longrightarrow> loops s = Fin q \<Longrightarrow> 1 \<le> k \<Longrightarrow>
   nat \<lceil>q\<rceil> \<le> loopCount s + k \<Longrightarrow> timers (ticks fp k s) = {}"
proof (induction k arbitrary: s)
  case 0
  then show ?case by simp
next
  case (Suc k)
  show ?case
  proof (cases "timers s = {}")
    case True
    then show ?thesis by (simp only: ticks_idle [OF True])
  next
    case running: False
    show ?thesis
    proof (cases "last_tick s")
      case True
      then have "timers (update fp s) = {}"
        using Suc.prems(1) by (simp add: update_timers clear_held)
      then show ?thesis
        using running by (simp add: tick_def ticks_idle)
    next
      case False
      then have "\<not> nat \<lceil>q\<rceil> \<le> Suc (loopCount s)"
        using Suc.prems(2) by (simp add: last_tick_iff)
      then have "1 \<le> k" and "nat \<lceil>q\<rceil> \<le> loopCount (update fp s) + k"
        using Suc.prems(4) by simp_all
      moreover have "timers (update fp s) \<subseteq> held (interval (update fp s))"
        using Suc.prems(1) False by (simp add: update_timers)
      moreover have "loops (update fp s) = Fin q"
        using Suc.prems(2) by simp
      ultimately have "timers (ticks fp k (update fp s)) = {}"
        by (intro Suc.IH)
      then show ?thesis
        using running by (simp add: tick_def)
    qed
  qed
qed

lemma start_running:
  "timer_inv s \<Longrightarrow> \<not> gsap s \<Longrightarrow>
   timers (start s) = {Suc (issued s)} \<and> interval (start s) = Id (Suc (issued s))"
  by (simp add: start_builtin stop_clears timer_inv_def)

section \<open>The value at completion\<close>

text \<open>
  C1. Take a counter in any state its calls and ticks can bring it to, without gsap, and
  start it. Whatever the rounding of the arithmetic, as soon as the interval timer is
  cleared after \<open>k\<close> ticks (the animation has completed), \<open>value\<close> is the option \<open>to\<close>
  itself; and when \<open>ceil(speed / refreshInterval)\<close> is finite the animation does complete,
  after the ticks that remain.
\<close>

theorem completed_value_is_target:
  assumes "s = run fp as (construct fp opts txt n False)"
  shows "(timers (ticks fp k (start s)) = {} \<longrightarrow> val (ticks fp k (start s)) = opt_to opts)
       \<and> (totalTicks fp opts = Fin q \<longrightarrow>
            timers (ticks fp (max 1 (nat \<lceil>q\<rceil> - loopCount s)) (start s)) = {})"
proof -
  have inv: "timer_inv s"
    unfolding assms by (rule timer_inv_run) (rule timer_inv_construct)
  have g: "\<not> gsap s" and o: "options s = opts"
    unfolding assms by (simp_all add: construct_fields)
  have l: "loops s = totalTicks fp opts"
    unfolding assms using run_loops [of "construct fp opts txt n False" fp as]
    by (simp add: construct_fields totalTicks_def)
  from inv g have r: "timers (start s) = {Suc (issued s)}" "interval (start s) = Id (Suc (issued s))"
    by (simp_all add: start_running)
  have "val (ticks fp k (start s)) = opt_to opts" if "timers (ticks fp k (start s)) = {}"
    using ticks_completed_val [of "start s" fp k] r that o by simp
  moreover have "timers (ticks fp (max 1 (nat \<lceil>q\<rceil> - loopCount s)) (start s)) = {}"
    if "totalTicks fp opts = Fin q"
    using ticks_completes [of "start s" q "max 1 (nat \<lceil>q\<rceil> - loopCount s)" fp] r l that
    by simp
  ultimately show ?thesis by blast
qed

theorem completed_value_is_target_witness:
  "timers (ticks exact 20 (start (construct exact scenario [] 0 False))) = {}
   \<and> val (ticks exact 20 (start (construct exact scenario [] 0 False))) = Fin 1000
   \<and> totalTicks exact scenario = Fin 20
   \<and> loopCount (construct exact scenario [] 0 False) = 0"
proof -
  have t: "totalTicks exact scenario = Fin 20"
    by (simp add: totalTicks_def scenario_def exact_def)
  have c: "loopCount (construct exact scenario [] 0 False) = 0"
    by (simp add: construct_fields)
  have "opt_to scenario = Fin 1000"
    by (simp add: scenario_def)
  then show ?thesis
    using completed_value_is_target
      [of "construct exact scenario [] 0 False" exact "[]" scenario "[]" 0 20 20] t c
    by simp
qed

section \<open>Stop, start and restart\<close>

text \<open>
  C10. \<open>stop\<close> leaves \<open>value\<close>, \<open>loopCount\<close>, \<open>loops\<close>, \<open>increment\<close>, the options and the
  text of the element as they are (and calls no hook): of the instance it changes
  \<open>interval\<close> alone.
\<close>

theorem stop_changes_interval_only:
  "val (stop s) = val s \<and> loopCount (stop s) = loopCount s \<and> loops (stop s) = loops s
   \<and> increment (stop s) = increment s \<and> options (stop s) = options s
   \<and> textContent (stop s) = textContent s \<and> calls (stop s) = calls s
   \<and> stop s = s\<lparr>interval := interval (stop s), timers := timers (stop s),
                  tweens := tweens (stop s)\<rparr>"
  by (simp add: stop_def Let_def)

theorem stop_changes_interval_only_witness:
  "val (stop (ticks exact 3 (start (construct exact scenario [] 0 False)))) = Fin 150
   \<and> loopCount (stop (ticks exact 3 (start (construct exact scenario [] 0 False)))) = 3
   \<and> textContent (stop (ticks exact 3 (start (construct exact scenario [] 0 False)))) = ''150''
   \<and> interval (stop (ticks exact 3 (start (construct exact scenario [] 0 False)))) = HNull
   \<and> interval (ticks exact 3 (start (construct exact scenario [] 0 False))) = Id 1"
proof -
  have "val (ticks exact 3 (start (construct exact scenario [] 0 False))) = Fin 150"
    and "loopCount (ticks exact 3 (start (construct exact scenario [] 0 False))) = 3"
    and "textContent (ticks exact 3 (start (construct exact scenario [] 0 False))) = ''150''"
    and "interval (stop (ticks exact 3 (start (construct exact scenario [] 0 False)))) = HNull"
    and "interval (ticks exact 3 (start (construct exact scenario [] 0 False))) = Id 1"
    by code_simp+
  then show ?thesis
    using stop_changes_interval_only
      [of "ticks exact 3 (start (construct exact scenario [] 0 False))"]
    by simp
qed




section \<open>At most one timer\<close>

lemma start_fresh_timer:
  assumes "timer_inv s"
  shows "timers (start s) \<inter> timers s = {}"
proof (cases "gsap s")
  case True
  then show ?thesis
    using assms by (simp add: start_gsap stop_clears timer_inv_def)
next
  case False
  have "timers (start s) = {Suc (issued s)}"
    using assms False by (simp add: start_running)
  moreover have "Suc (issued s) \<notin> timers s"
    using assms by (auto simp: timer_inv_def)
  ultimately show ?thesis by simp
qed

lemma stop_idle:
  assumes "\<not> handle_truthy (interval s)" and "tweens s = 0"
  shows "stop s = s"
  using assms by (simp add: stop_def Let_def)

text \<open>
  C6. In every state that calls of \<open>start\<close>, \<open>stop\<close>, \<open>restart\<close> and \<open>toggle\<close> and ticks of the
  timer, in any order, can bring a counter to, with or without gsap: at most one interval
  timer of the instance is active. A further \<open>start\<close> leaves at most one active, and it is
  not one that was active before, so the previous run has been stopped. \<open>stop\<close> on a
  counter with no active timer leaves none, and changes nothing at all when \<open>interval\<close>
  is unset and no tween runs.
\<close>

theorem at_most_one_timer:
  assumes "s = run fp as (construct fp opts txt n g)"
  shows "finite (timers s) \<and> card (timers s) \<le> 1
       \<and> card (timers (start s)) \<le> 1
       \<and> timers (start s) \<inter> timers s = {}
       \<and> (\<not> g \<longrightarrow> card (timers (start s)) = 1)
       \<and> (timers s = {} \<longrightarrow> timers (stop s) = {})
       \<and> card (timers (stop s)) = 0
       \<and> (\<not> handle_truthy (interval s) \<and> tweens s = 0 \<longrightarrow> stop s = s)"
proof -
  have inv: "timer_inv s"
    unfolding assms by (rule timer_inv_run) (rule timer_inv_construct)
  have g: "gsap s = g"
    unfolding assms by (simp add: construct_fields)
  have "finite (timers s) \<and> card (timers s) \<le> 1"
    using inv by (rule timer_inv_card)
  moreover have "card (timers (start s)) \<le> 1"
    using timer_inv_card [OF timer_inv_start [OF inv]] by simp
  moreover have "timers (start s) \<inter> timers s = {}"
    using inv by (rule start_fresh_timer)
  moreover have "card (timers (start s)) = 1" if "\<not> g"
    using that g inv by (simp add: start_running)
  moreover have "timers (stop s) = {}"
    using inv by (simp add: stop_clears timer_inv_def)
  moreover have "stop s = s" if "\<not> handle_truthy (interval s) \<and> tweens s = 0"
    using that by (simp add: stop_idle)
  ultimately show ?thesis by simp
qed

theorem at_most_one_timer_witness:
  "timers (run exact [Start, Tick, Tick, Start, Toggle, Toggle, Restart, Tick]
             (construct exact scenario [] 0 False)) = {4}
   \<and> timers (start (run exact [Start, Tick, Tick, Start, Toggle, Toggle, Restart, Tick]
                      (construct exact scenario [] 0 False))) = {5}
   \<and> timers (stop (run exact [Start, Tick, Tick, Start, Toggle, Toggle, Restart, Tick]
                      (construct exact scenario [] 0 False))) = {}
   \<and> card (timers (run exact [Start, Tick, Tick, Start, Toggle, Toggle, Restart, Tick]
                      (construct exact scenario [] 0 False))) \<le> 1
   \<and> stop (construct exact scenario [] 0 False) = construct exact scenario [] 0 False"
proof -
  have "timers (run exact [Start, Tick, Tick, Start, Toggle, Toggle, Restart, Tick]
             (construct exact scenario [] 0 False)) = {4}"
    and "timers (start (run exact [Start, Tick, Tick, Start, Toggle, Toggle, Restart, Tick]
                      (construct exact scenario [] 0 False))) = {5}"
    and "timers (stop (run exact [Start, Tick, Tick, Start, Toggle, Toggle, Restart, Tick]
                      (construct exact scenario [] 0 False))) = {}"
    by code_simp+
  moreover have "\<not> handle_truthy (interval (construct exact scenario [] 0 False))"
    and "tweens (construct exact scenario [] 0 False) = 0"
    by (simp_all add: construct_fields)
  ultimately show ?thesis
    using at_most_one_timer
      [of "run exact [Start, Tick, Tick, Start, Toggle, Toggle, Restart, Tick]
             (construct exact scenario [] 0 False)"
          exact "[Start, Tick, Tick, Start, Toggle, Toggle, Restart, Tick]" scenario "[]" 0 False]
      at_most_one_timer
      [of "construct exact scenario [] 0 False" exact "[]" scenario "[]" 0 False]
    by simp
qed

section \<open>The hook calls of a run\<close>

lemma update_calls_append [simp]:
  "update_calls (xs @ ys) = update_calls xs + update_calls ys"
  by (simp add: update_calls_def)

lemma complete_calls_append [simp]:
  "complete_calls (xs @ ys) = complete_calls xs + complete_calls ys"
  by (simp add: complete_calls_def)

lemma hook_calls_single [simp]:
  "update_calls [UpdateCall v] = 1" "update_calls [CompleteCall v] = 0"
  "complete_calls [UpdateCall v] = 0" "complete_calls [CompleteCall v] = 1"
  "update_calls [] = 0" "complete_calls [] = 0"
  by (simp_all add: update_calls_def complete_calls_def)

text \<open>The update hook is called once a tick, up to and including the last tick.\<close>

lemma ticks_update_calls:
  "timers s \<subseteq> held (interval s) \<Longrightarrow> timers s \<noteq> {} \<Longrightarrow> onUpdate (options s) = Function \<Longrightarrow>
   loops s = Fin q \<Longrightarrow>
   update_calls (calls (ticks fp k s)) =
     update_calls (calls s) + min k (max 1 (nat \<lceil>q\<rceil> - loopCount s))"
proof (induction k arbitrary: s)
  case 0
  then show ?case by simp
next
  case (Suc k)
  have one: "update_calls (calls (update fp s)) = update_calls (calls s) + 1"
    using Suc.prems(3) by (simp add: update_calls_log update_calls_def)
  show ?case
  proof (cases "last_tick s")
    case True
    then have "timers (update fp s) = {}"
      using Suc.prems(1) by (simp add: update_timers clear_held)
    then have "ticks fp k (update fp s) = update fp s"
      by (rule ticks_idle)
    moreover have "nat \<lceil>q\<rceil> \<le> Suc (loopCount s)"
      using True Suc.prems(4) by (simp add: last_tick_iff)
    ultimately show ?thesis
      using Suc.prems(2) one by (simp add: tick_def)
  next
    case False
    then have far: "\<not> nat \<lceil>q\<rceil> \<le> Suc (loopCount s)"
      using Suc.prems(4) by (simp add: last_tick_iff)
    have "update_calls (calls (ticks fp k (update fp s))) =
            update_calls (calls (update fp s))
            + min k (max 1 (nat \<lceil>q\<rceil> - loopCount (update fp s)))"
      using Suc.prems False by (intro Suc.IH) (simp_all add: update_timers)
    moreover have "1 + min k (max 1 (nat \<lceil>q\<rceil> - Suc (loopCount s))) =
        min (Suc k) (max 1 (nat \<lceil>q\<rceil> - loopCount s))"
      using far by linarith
    ultimately show ?thesis
      using Suc.prems(2) one by (simp add: tick_def)
  qed
qed


lemma ticks_still_running:
  "timers s \<noteq> {} \<Longrightarrow> loops s = Fin q \<Longrightarrow> k < max 1 (nat \<lceil>q\<rceil> - loopCount s) \<Longrightarrow>
   timers (ticks fp k s) = timers s"
proof (induction k arbitrary: s)
  case 0
  then show ?case by simp
next
  case (Suc k)
  from Suc.prems(3) have far: "\<not> nat \<lceil>q\<rceil> \<le> Suc (loopCount s)"
    by linarith
  then have nl: "\<not> last_tick s"
    using Suc.prems(2) by (simp add: last_tick_iff)
  have "k < max 1 (nat \<lceil>q\<rceil> - loopCount (update fp s))"
    using Suc.prems(3) by simp
  then have "timers (ticks fp k (update fp s)) = timers (update fp s)"
    using Suc.prems(1,2) nl by (intro Suc.IH) (simp_all add: update_timers)
  then show ?case
    using Suc.prems(1) nl by (simp add: tick_def update_timers)
qed

section \<open>The number of update-hook calls\<close>

text \<open>
  C3, as the specification states it, fails for a duration of zero: \<open>totalTicks\<close> is 0, and
  the run still makes one tick, so the update hook is called once (with \<open>Infinity\<close>, the
  value after adding \<open>1000 / 0\<close>).
\<close>

theorem zero_duration_counterexample:
  "totalTicks exact (scenario\<lparr>speed := Fin 0\<rparr>) = Fin 0
   \<and> timers (ticks exact 1 (start (construct exact (scenario\<lparr>speed := Fin 0\<rparr>) [] 0 False))) = {}
   \<and> calls (ticks exact 1 (start (construct exact (scenario\<lparr>speed := Fin 0\<rparr>) [] 0 False)))
       = [UpdateCall PInf, CompleteCall (Fin 1000)]
   \<and> update_calls
        (calls (ticks exact 1 (start (construct exact (scenario\<lparr>speed := Fin 0\<rparr>) [] 0 False))))
       = 1"
  by code_simp

text \<open>
  C3, amended. \<open>loops\<close> is the ceiling of \<open>speed / refreshInterval\<close>. When that quotient is
  a finite \<open>x\<close>, a newly constructed counter with an update hook, started without gsap,
  has called the hook \<open>min k (max 1 \<lceil>x\<rceil>)\<close> times after \<open>k\<close> ticks; the run completes after
  \<open>max 1 \<lceil>x\<rceil>\<close> ticks; and once it has completed the hook has been called \<open>\<lceil>x\<rceil>\<close> times when
  \<open>\<lceil>x\<rceil>\<close> is at least 1, and once otherwise.
\<close>

theorem update_hook_count:
  assumes "onUpdate opts = Function"
    and "fdiv fp (speed opts) (refreshInterval opts) = Fin x"
  shows "loops (construct fp opts txt n False) = Fin (of_int \<lceil>x\<rceil>)
       \<and> update_calls (calls (ticks fp k (start (construct fp opts txt n False))))
           = min k (max 1 (nat \<lceil>x\<rceil>))
       \<and> timers (ticks fp (max 1 (nat \<lceil>x\<rceil>)) (start (construct fp opts txt n False))) = {}
       \<and> (timers (ticks fp k (start (construct fp opts txt n False))) = {} \<longrightarrow>
            int (update_calls (calls (ticks fp k (start (construct fp opts txt n False)))))
              = max 1 \<lceil>x\<rceil>)"
proof -
  let ?c = "construct fp opts txt n False"
  have inv: "timer_inv ?c"
    by (rule timer_inv_construct)
  have l: "loops ?c = Fin (of_int \<lceil>x\<rceil>)"
    using assms(2) by (simp add: construct_fields)
  have r: "timers (start ?c) = {Suc n}" "interval (start ?c) = Id (Suc n)"
    using start_running [OF inv] by (simp_all add: construct_fields)
  have ls: "loops (start ?c) = Fin (of_int \<lceil>x\<rceil>)" "loopCount (start ?c) = 0"
    "options (start ?c) = opts" "calls (start ?c) = []"
    using l by (simp_all add: construct_fields)
  have count: "update_calls (calls (ticks fp k (start ?c))) = min k (max 1 (nat \<lceil>x\<rceil>))" for k
    using ticks_update_calls [of "start ?c" "of_int \<lceil>x\<rceil>" fp k] r ls assms(1)
    by simp
  have fin: "timers (ticks fp (max 1 (nat \<lceil>x\<rceil>)) (start ?c)) = {}"
    using ticks_completes [of "start ?c" "of_int \<lceil>x\<rceil>" "max 1 (nat \<lceil>x\<rceil>)" fp] r ls
    by simp
  have "int (update_calls (calls (ticks fp k (start ?c)))) = max 1 \<lceil>x\<rceil>"
    if cleared: "timers (ticks fp k (start ?c)) = {}"
  proof -
    have "\<not> k < max 1 (nat \<lceil>x\<rceil>)"
    proof
      assume "k < max 1 (nat \<lceil>x\<rceil>)"
      then have "timers (ticks fp k (start ?c)) = timers (start ?c)"
        using ticks_still_running [of "start ?c" "of_int \<lceil>x\<rceil>" k fp] r ls by simp
      with cleared r show False by simp
    qed
    then have "min k (max 1 (nat \<lceil>x\<rceil>)) = max 1 (nat \<lceil>x\<rceil>)"
      by simp
    then show ?thesis
      using count [of k] by linarith
  qed
  with l count [of k] fin show ?thesis by blast
qed

theorem update_hook_count_witness:
  "loops (construct exact scenario [] 0 False) = Fin 20
   \<and> update_calls (calls (ticks exact 7 (start (construct exact scenario [] 0 False)))) = 7
   \<and> timers (ticks exact 20 (start (construct exact scenario [] 0 False))) = {}
   \<and> update_calls (calls (ticks exact 20 (start (construct exact scenario [] 0 False)))) = 20
   \<and> update_calls (calls (ticks exact 30 (start (construct exact scenario [] 0 False)))) = 20"
proof -
  have o: "onUpdate scenario = Function"
    and d: "fdiv exact (speed scenario) (refreshInterval scenario) = Fin 20"
    by (simp_all add: scenario_def exact_def)
  show ?thesis
    using update_hook_count [OF o d, of "[]" 0 7] update_hook_count [OF o d, of "[]" 0 20]
      update_hook_count [OF o d, of "[]" 0 30]
    by simp
qed

section \<open>The completion hook\<close>



section \<open>Linear interpolation\<close>













section \<open>The scroll listener fires once\<close>

lemma scroll_events_detached:
  "\<not> listening p \<Longrightarrow> scroll_events fp st vps p = p"
  by (induction vps) (simp_all add: scroll_event_def)

lemma scroll_events_attached:
  "listening p \<Longrightarrow>
   scroll_events fp st vps p =
     (if list_ex (in_view fp) vps
      then p\<lparr>engine := st (engine p), start_calls := Suc (start_calls p), listening := False\<rparr>
      else p)"
proof (induction vps)
  case Nil
  then show ?case by simp
next
  case (Cons vp vps)
  show ?case
  proof (cases "in_view fp vp")
    case True
    then show ?thesis
      using Cons.prems
      by (simp add: scroll_event_def checkScroll_def scroll_events_detached)
  next
    case False
    then show ?thesis
      using Cons by (simp add: scroll_event_def checkScroll_def)
  qed
qed

lemma setup_then_scroll:
  "scroll_events fp st vps (setupScrollListener fp st vp0 e) =
     (if list_ex (in_view fp) (vp0 # vps)
      then \<lparr>engine = st e, listening = False, start_calls = 1, external_trigger = False\<rparr>
      else \<lparr>engine = e, listening = True, start_calls = 0, external_trigger = False\<rparr>)"
proof (cases "in_view fp vp0")
  case True
  then show ?thesis
    by (simp add: setupScrollListener_def checkScroll_def scroll_events_detached)
next
  case False
  then show ?thesis
    by (simp add: setupScrollListener_def checkScroll_def scroll_events_attached)
qed

lemma in_view_exact:
  assumes "rect_top vp = Fin t" and "rect_bottom vp = Fin b" and "innerHeight vp = Fin h"
    and "h \<noteq> 0"
  shows "in_view exact vp \<longleftrightarrow> t \<le> h * (8 / 10) \<and> 0 \<le> b"
  using assms by (simp add: in_view_def windowHeight_def exact_def js_le_def)

text \<open>
  C9. Whatever the engine, its \<open>start\<close> and the rounding: after \<open>setupScrollListener\<close> and
  any sequence of scroll events, \<open>start\<close> has been called once if the check at attach time
  or one of the events found the element in view (\<open>rect.top <= windowHeight * 0.8\<close> and
  \<open>rect.bottom >= 0\<close>), and not at all otherwise; the listener is attached exactly as long
  as \<open>start\<close> has not been called, and the engine has been started exactly when it has.
  In exact arithmetic, with a window of non-zero height \<open>h\<close>, the element is in view when
  its top is at most \<open>0.8 * h\<close> and its bottom at least 0: not at \<open>0.9 * h\<close>, but at
  \<open>0.75 * h\<close>. Both classes use this listener: ModernCounter when gsap is loaded without
  its ScrollTrigger plugin, VerticalCounter when ScrollTrigger is undefined.
\<close>

theorem scroll_listener_fires_once:
  "start_calls (scroll_events fp st vps (setupScrollListener fp st vp0 e))
     = (if list_ex (in_view fp) (vp0 # vps) then 1 else 0)
   \<and> listening (scroll_events fp st vps (setupScrollListener fp st vp0 e))
     = (\<not> list_ex (in_view fp) (vp0 # vps))
   \<and> engine (scroll_events fp st vps (setupScrollListener fp st vp0 e))
     = (if list_ex (in_view fp) (vp0 # vps) then st e else e)
   \<and> (list_ex (in_view fp) (vp0 # vps) \<longrightarrow>
        scroll_events fp st (vps @ later) (setupScrollListener fp st vp0 e)
          = scroll_events fp st vps (setupScrollListener fp st vp0 e))
   \<and> (rect_top vp = Fin t \<and> rect_bottom vp = Fin b \<and> innerHeight vp = Fin h \<and> h \<noteq> 0 \<longrightarrow>
        in_view exact vp = (t \<le> h * (8 / 10) \<and> 0 \<le> b))
   \<and> (scrollTrigger opts \<longrightarrow>
        ModernCounter fp opts txt n True False vp0
          = setupScrollListener fp start vp0 (construct fp opts txt n True))
   \<and> (v_scrollTrigger vopts \<and> v_to vopts = Some (d # ds) \<longrightarrow>
        (case buildCounter vopts of
           Inl err \<Rightarrow> False
         | Inr c \<Rightarrow> VerticalCounter fp vopts False vp0
                    = Inr \<lparr>console = [], inst = Built (setupScrollListener fp (vstart fp) vp0 c)\<rparr>))"
proof -
  have "scroll_events fp st (vps @ later) (setupScrollListener fp st vp0 e)
       = scroll_events fp st vps (setupScrollListener fp st vp0 e)"
    if "list_ex (in_view fp) (vp0 # vps)"
    using that by (simp only: setup_then_scroll) auto
  moreover have "in_view exact vp = (t \<le> h * (8 / 10) \<and> 0 \<le> b)"
    if "rect_top vp = Fin t \<and> rect_bottom vp = Fin b \<and> innerHeight vp = Fin h \<and> h \<noteq> 0"
    using that by (simp add: in_view_exact)
  moreover have "ModernCounter fp opts txt n True False vp0
          = setupScrollListener fp start vp0 (construct fp opts txt n True)"
    if "scrollTrigger opts"
    using that by (simp add: ModernCounter_def setupScrollTrigger_def Let_def)
  moreover have "(case buildCounter vopts of
           Inl err \<Rightarrow> False
         | Inr c \<Rightarrow> VerticalCounter fp vopts False vp0
                    = Inr \<lparr>console = [], inst = Built (setupScrollListener fp (vstart fp) vp0 c)\<rparr>)"
    if "v_scrollTrigger vopts \<and> v_to vopts = Some (d # ds)"
    using that by (simp add: VerticalCounter_def buildCounter_def Let_def)
  ultimately show ?thesis
    by (simp add: setup_then_scroll)
qed

theorem scroll_listener_fires_once_witness:
  "in_view exact (placed 90) = False \<and> in_view exact (placed 75) = True
   \<and> start_calls (scroll_events exact start [placed 90, placed 85]
         (setupScrollListener exact start (placed 90) (construct exact scenario [] 0 True))) = 0
   \<and> listening (scroll_events exact start [placed 90, placed 85]
         (setupScrollListener exact start (placed 90) (construct exact scenario [] 0 True))) = True
   \<and> start_calls (scroll_events exact start [placed 90, placed 75, placed 75, placed 50]
         (setupScrollListener exact start (placed 90) (construct exact scenario [] 0 True))) = 1
   \<and> listening (scroll_events exact start [placed 90, placed 75, placed 75, placed 50]
         (setupScrollListener exact start (placed 90) (construct exact scenario [] 0 True))) = False
   \<and> scroll_events exact start ([placed 90, placed 75] @ [placed 75, placed 50])
         (setupScrollListener exact start (placed 90) (construct exact scenario [] 0 True))
       = scroll_events exact start [placed 90, placed 75]
         (setupScrollListener exact start (placed 90) (construct exact scenario [] 0 True))"
proof -
  let ?c = "construct exact scenario [] 0 True"
  have v90: "in_view exact (placed 90) = False"
    using scroll_listener_fires_once [of exact start "[]" "placed 90" ?c "[]" "placed 90" 900 950 1000]
    by (simp add: placed_def)
  have v85: "in_view exact (placed 85) = False"
    using scroll_listener_fires_once [of exact start "[]" "placed 90" ?c "[]" "placed 85" 850 900 1000]
    by (simp add: placed_def)
  have v75: "in_view exact (placed 75) = True"
    using scroll_listener_fires_once [of exact start "[]" "placed 90" ?c "[]" "placed 75" 750 800 1000]
    by (simp add: placed_def)
  show ?thesis
    using scroll_listener_fires_once [of exact start "[placed 90, placed 85]" "placed 90" ?c "[]"]
      scroll_listener_fires_once
        [of exact start "[placed 90, placed 75, placed 75, placed 50]" "placed 90" ?c "[]"]
      scroll_listener_fires_once
        [of exact start "[placed 90, placed 75]" "placed 90" ?c "[placed 75, placed 50]"]
      v90 v85 v75
    by simp
qed

section \<open>VerticalCounter: columns and stagger\<close>

lemma enumerate_map_fst: "map fst (List.enumerate i xs) = [i..<i + length xs]"
  by (simp add: enumerate_eq_zip)

lemma vstart_columns:
  "map digit_value (digitElements (vstart fp c)) = map digit_value (digitElements c)"
  "length (digitElements (vstart fp c)) = length (digitElements c)"
  "map delay (digitElements (vstart fp c)) =
     map (\<lambda>i. Some (fmul fp (Fin (of_nat i)) (Fin (1 / 10)))) [0..<length (digitElements c)]"
proof -
  have a: "map (digit_value \<circ> start_digit fp d) ps = map (digit_value \<circ> snd) ps" for d ps
    by (rule map_cong) (auto simp: start_digit_def)
  have b: "map (delay \<circ> start_digit fp d) ps =
      map ((\<lambda>i. Some (fmul fp (Fin (of_nat i)) (Fin (1 / 10)))) \<circ> fst) ps" for d ps
    by (rule map_cong) (auto simp: start_digit_def)
  show "map digit_value (digitElements (vstart fp c)) = map digit_value (digitElements c)"
    using a [of "duration (voptions c)" "List.enumerate 0 (digitElements c)"]
    by (simp add: vstart_def map_map [symmetric] del: map_map)
  show "length (digitElements (vstart fp c)) = length (digitElements c)"
    by (simp add: vstart_def)
  show "map delay (digitElements (vstart fp c)) =
     map (\<lambda>i. Some (fmul fp (Fin (of_nat i)) (Fin (1 / 10)))) [0..<length (digitElements c)]"
    using b [of "duration (voptions c)" "List.enumerate 0 (digitElements c)"]
      enumerate_map_fst [of 0 "digitElements c"]
    by (simp add: vstart_def map_map [symmetric] del: map_map)
qed

lemma checkScroll_columns:
  "map digit_value (digitElements (engine (checkScroll fp (vstart fp) vp p)))
     = map digit_value (digitElements (engine p))"
  by (simp add: checkScroll_def vstart_columns)

text \<open>
  Every construction with a non-empty \<open>to\<close> returns an instance with one column for each
  character, in the order of the string, and \<open>start\<close> gives column \<open>i\<close> the delay
  \<open>i * 0.1\<close>.
\<close>

lemma VerticalCounter_columns:
  assumes "v_to opts = Some (d # ds)"
  shows "\<exists>r. VerticalCounter fp opts plugin vp = Inr r \<and> console r = []
      \<and> map digit_value (columns (inst r)) = map parse_digit (d # ds)
      \<and> (\<exists>i. vc_start fp (inst r) = Inr i
            \<and> map digit_value (columns i) = map parse_digit (d # ds)
            \<and> map delay (columns i) =
                 map (\<lambda>i. Some (fmul fp (Fin (of_nat i)) (Fin (1 / 10)))) [0..<length (d # ds)])"
proof -
  obtain c where c: "buildCounter opts = Inr c"
    and dc: "map digit_value (digitElements c) = map parse_digit (d # ds)"
    using assms by (simp add: buildCounter_def comp_def)
  obtain p where r: "VerticalCounter fp opts plugin vp = Inr \<lparr>console = [], inst = Built p\<rparr>"
    and p: "map digit_value (digitElements (engine p)) = map parse_digit (d # ds)"
    using assms c dc
    by (simp add: VerticalCounter_def setupScrollListener_def checkScroll_columns)
  have len: "length (digitElements (engine p)) = length (d # ds)"
    using p by (metis length_map)
  show ?thesis
    using r p len by (simp add: vstart_columns)
qed

text \<open>
  C7. For the target \<open>4562\<close>, whatever the other options, the scroll trigger and the
  rounding: the constructor throws nothing and returns an instance of exactly 4 columns
  whose digits are 4, 5, 6, 2 in that order; \<open>start\<close> on it throws nothing and gives the
  columns the transition delays \<open>0 * 0.1\<close>, \<open>1 * 0.1\<close>, \<open>2 * 0.1\<close>, \<open>3 * 0.1\<close>, that is
  the index times a constant. In exact arithmetic these are 0, 1/10, 2/10, 3/10 seconds:
  each is the one before plus 1/10.
\<close>

theorem four_columns_staggered:
  "(case VerticalCounter fp (opts\<lparr>v_to := Some ''4562''\<rparr>) plugin vp of
      Inl err \<Rightarrow> False
    | Inr r \<Rightarrow>
        length (columns (inst r)) = 4
        \<and> map digit_value (columns (inst r)) = [4, 5, 6, 2]
        \<and> (case vc_start fp (inst r) of
              Inl err \<Rightarrow> False
            | Inr i \<Rightarrow>
                map digit_value (columns i) = [4, 5, 6, 2]
                \<and> map delay (columns i) =
                     [Some (fmul fp (Fin 0) (Fin (1 / 10))), Some (fmul fp (Fin 1) (Fin (1 / 10))),
                      Some (fmul fp (Fin 2) (Fin (1 / 10))), Some (fmul fp (Fin 3) (Fin (1 / 10)))]))
   \<and> map (\<lambda>i. fmul exact (Fin (of_nat i)) (Fin (1 / 10))) [0, 1, 2, 3]
       = [Fin 0, Fin (1 / 10), Fin (2 / 10), Fin (3 / 10)]
   \<and> fmul exact (Fin (of_nat (Suc j))) (Fin (1 / 10))
       = fadd exact (fmul exact (Fin (of_nat j)) (Fin (1 / 10))) (Fin (1 / 10))
   \<and> js_ge (fmul exact (Fin (of_nat (Suc j))) (Fin (1 / 10)))
            (fmul exact (Fin (of_nat j)) (Fin (1 / 10)))
   \<and> fmul exact (Fin (of_nat (Suc j))) (Fin (1 / 10)) \<noteq> fmul exact (Fin (of_nat j)) (Fin (1 / 10))"
proof -
  have p: "map parse_digit ''4562'' = [4, 5, 6, 2]"
    by (simp add: parse_digit_def)
  have u: "[0..<length ''4562''] = [0, 1, 2, 3]"
    by (simp add: upt_rec)
  obtain r i where "VerticalCounter fp (opts\<lparr>v_to := Some ''4562''\<rparr>) plugin vp = Inr r"
    and "map digit_value (columns (inst r)) = map parse_digit ''4562''"
    and "vc_start fp (inst r) = Inr i"
    and "map digit_value (columns i) = map parse_digit ''4562''"
    and "map delay (columns i) =
           map (\<lambda>i. Some (fmul fp (Fin (of_nat i)) (Fin (1 / 10)))) [0..<length ''4562'']"
    using VerticalCounter_columns [of "opts\<lparr>v_to := Some ''4562''\<rparr>" "CHR ''4''" "''562''" fp plugin vp]
    by auto
  moreover from this(2) have "length (map digit_value (columns (inst r))) = 4"
    unfolding p by simp
  then have "length (columns (inst r)) = 4"
    by simp
  moreover have "fmul exact (Fin (of_nat (Suc j))) (Fin (1 / 10))
       = fadd exact (fmul exact (Fin (of_nat j)) (Fin (1 / 10))) (Fin (1 / 10))"
    by (simp add: exact_def algebra_simps)
  ultimately show ?thesis
    unfolding p u by (simp add: exact_def)
qed

theorem four_columns_staggered_witness:
  "(case VerticalCounter exact (VDEFAULTS\<lparr>v_to := Some ''4562''\<rparr>) False (placed 90) of
      Inl err \<Rightarrow> False
    | Inr r \<Rightarrow>
        map digit_value (columns (inst r)) = [4, 5, 6, 2]
        \<and> (case vc_start exact (inst r) of
              Inl err \<Rightarrow> False
            | Inr i \<Rightarrow>
                map delay (columns i) =
                  [Some (Fin 0), Some (Fin (1 / 10)), Some (Fin (1 / 5)), Some (Fin (3 / 10))]))"
  using four_columns_staggered [of exact VDEFAULTS False "placed 90" 0]
  by (auto simp: exact_def split: sum.splits)

section \<open>VerticalCounter without a target\<close>

text \<open>
  C8. When \<open>to\<close> is missing (undefined, or the empty string), whatever the other options
  and the scroll trigger: the constructor throws nothing, writes the one error message to
  the console, and returns an instance on which nothing was built: it has no columns, no
  pending timeout, no scroll listener and no external trigger.
\<close>

theorem missing_target_aborts:
  "(missing (v_to opts) \<longrightarrow>
      VerticalCounter fp opts plugin vp
        = Inr \<lparr>console = [''VerticalCounter requires a '' @ [CHR 0x22] @ ''to'' @ [CHR 0x22]
                            @ '' value''],
               inst = Unbuilt opts\<rparr>
      \<and> columns (Unbuilt opts) = [])
   \<and> (\<not> missing (v_to opts) \<longrightarrow>
      (case VerticalCounter fp opts plugin vp of
         Inl err \<Rightarrow> False
       | Inr r \<Rightarrow> console r = [] \<and> columns (inst r) \<noteq> []))"
proof -
  have "case VerticalCounter fp opts plugin vp of
         Inl err \<Rightarrow> False
       | Inr r \<Rightarrow> console r = [] \<and> columns (inst r) \<noteq> []"
    if "\<not> missing (v_to opts)"
  proof -
    from that obtain d ds where "v_to opts = Some (d # ds)"
      by (cases "v_to opts") (auto simp: neq_Nil_conv)
    from VerticalCounter_columns [OF this, of fp plugin vp] show ?thesis
      by auto
  qed
  then show ?thesis
    by (simp add: VerticalCounter_def)
qed

theorem missing_target_aborts_witness:
  "VerticalCounter exact VDEFAULTS False (placed 90)
     = Inr \<lparr>console = [''VerticalCounter requires a '' @ [CHR 0x22] @ ''to'' @ [CHR 0x22]
                         @ '' value''],
            inst = Unbuilt VDEFAULTS\<rparr>
   \<and> VerticalCounter exact (VDEFAULTS\<lparr>v_to := Some []\<rparr>) True (placed 75)
     = Inr \<lparr>console = [''VerticalCounter requires a '' @ [CHR 0x22] @ ''to'' @ [CHR 0x22]
                         @ '' value''],
            inst = Unbuilt (VDEFAULTS\<lparr>v_to := Some []\<rparr>)\<rparr>
   \<and> columns (Unbuilt VDEFAULTS) = []"
  using missing_target_aborts [of VDEFAULTS exact False "placed 90"]
    missing_target_aborts [of "VDEFAULTS\<lparr>v_to := Some []\<rparr>" exact True "placed 75"]
  by (simp add: VDEFAULTS_def)

end
